theory Spec2Isabelle
  imports Complex_Main "HOL-Library.AList"
begin

section \<open>The instruction execution engine of agentflow\<close>

text \<open>
  A shallow embedding of the instruction classes of
  \<^verbatim>\<open>tests/core/instructions/test_advanced.py\<close>: \<^verbatim>\<open>SimpleInstruction\<close>,
  \<^verbatim>\<open>SimpleCompositeInstruction\<close>, \<^verbatim>\<open>SimpleParallelInstruction\<close> and
  \<^verbatim>\<open>ConditionalInstructionTest\<close>. Their base classes
  (\<^verbatim>\<open>agentflow.core.instructions.base\<close> and \<^verbatim>\<open>.advanced\<close>) are not part of
  the sources at hand; what they contribute (the \<^verbatim>\<open>execute\<close> wrapper, the result
  envelope, the iterative instruction) is modelled from the specification and marked so.

  Python exceptions are values of type \<open>exn\<close>; a call that may raise returns
  \<open>exn + 'a\<close> with \<open>Inl\<close> the raised exception. Every method of the source is a
  coroutine: it is embedded as a \<open>task\<close>, a program over the one shared context
  dictionary that reads it, replaces it (the source mutates it in place), records an
  event, or suspends. The events are a spy: which \<^verbatim>\<open>execute\<close>,
  \<^verbatim>\<open>_execute_impl\<close>, validation rule, condition and loop body was entered, in
  order. \<open>run\<close> awaits a task that is alone on the event loop; \<open>gather\<close>
  interleaves tasks at their suspension points.
\<close>

subsection \<open>Values, results and exceptions\<close>

text \<open>
  Modelled from the spec: \<^verbatim>\<open>InstructionStatus\<close> is declared in the missing
  \<^verbatim>\<open>agentflow.core.instructions.base\<close>; section 3 lists its four members.
\<close>

datatype InstructionStatus = Pending | Running | Completed | Failed

datatype exn = Exception string | ValueError string | TypeError string

text \<open>\<^verbatim>\<open>str(e)\<close> of an exception built from one message.\<close>

fun str :: "exn \<Rightarrow> string" where
  "str (Exception m) = m"
| "str (ValueError m) = m"
| "str (TypeError m) = m"

text \<open>
  Modelled from the spec: \<^verbatim>\<open>InstructionResult\<close> is declared in the missing
  \<^verbatim>\<open>agentflow.core.instructions.base\<close>. Per section 3 it holds the status, the
  \<^verbatim>\<open>data\<close> (present iff the status is \<^verbatim>\<open>Completed\<close>) and the \<^verbatim>\<open>error\<close>
  (present iff it is \<^verbatim>\<open>Failed\<close>); the optional metrics are observational and left
  out.

  The Python values around it are those of the source. \<open>data\<close> are the values a
  result's \<^verbatim>\<open>data\<close> field holds in this program: \<^verbatim>\<open>None\<close> (a failed result), a
  dictionary (in insertion order), or the list of child results a composite body
  returns. \<open>pyval\<close> are the values stored under a key.
\<close>

datatype pyval = PStr string | PInt int | PList "pyval list" | PData data
  and data = DNone | DDict "(string \<times> pyval) list" | DResults "InstructionResult list"
  and InstructionResult =
    InstructionResult (status: InstructionStatus) (data: data) (error: "string option")

type_synonym ctx = "(string \<times> pyval) list"

text \<open>
  Modelled from the spec: \<^verbatim>\<open>ValidationResult\<close> is declared in the missing
  \<^verbatim>\<open>agentflow.core.instructions.base\<close>; the fields are those of section 3 and of the
  constructor calls in \<^verbatim>\<open>SimpleInstruction._validate\<close>.
\<close>

record ValidationResult =
  is_valid :: bool
  score :: real
  metrics :: ctx
  violations :: "string list"

text \<open>
  The events of the spy, each with the name of the instruction it belongs to: a call
  of \<^verbatim>\<open>execute\<close>, the evaluation of one validation rule, the entry into
  \<^verbatim>\<open>_execute_impl\<close>, the evaluation of one condition, one execution of an
  iterative body.
\<close>

datatype event =
    EvExecute string
  | EvRule string
  | EvImpl string
  | EvCond string
  | EvIter string

subsection \<open>Coroutines\<close>

text \<open>
  A coroutine over the shared context: it ends with a value, reads the context,
  replaces it, records an event, or suspends (\<open>Yield\<close>: the event loop may run other
  tasks before it resumes).
\<close>

datatype 'a task =
    Done 'a
  | Read "ctx \<Rightarrow> 'a task"
  | Write ctx "'a task"
  | Emit event "'a task"
  | Yield "'a task"

text \<open>\<^verbatim>\<open>v = await t; k(v)\<close>.\<close>

primrec bind :: "'a task \<Rightarrow> ('a \<Rightarrow> 'b task) \<Rightarrow> 'b task" where
  "bind (Done v) k = k v"
| "bind (Read f) k = Read (\<lambda>c. bind (f c) k)"
| "bind (Write c t) k = Write c (bind t k)"
| "bind (Emit e t) k = Emit e (bind t k)"
| "bind (Yield t) k = Yield (bind t k)"

lemma bind_cong [fundef_cong]:
  assumes "t = t'" and "\<And>v. k v = k' v"
  shows "bind t k = bind t' k'"
proof -
  from assms(2) have "k = k'" by (rule ext)
  with assms(1) show ?thesis by simp
qed

text \<open>
  Awaiting a task that is alone on the event loop: nothing else runs while it is
  suspended. The result is the task's value, the context it leaves, and its events.
\<close>

primrec run :: "'a task \<Rightarrow> ctx \<Rightarrow> 'a \<times> ctx \<times> event list" where
  "run (Done v) c = (v, c, [])"
| "run (Read f) c = run (f c) c"
| "run (Write c' t) c = run t c'"
| "run (Emit e t) c = (case run t c of (v, c', lg) \<Rightarrow> (v, c', e # lg))"
| "run (Yield t) c = run t c"

text \<open>
  The hooks a caller supplies (validation rules, conditions, the hooks of a leaf class)
  are async callables given the context: they may read it and suspend any number of
  times before they return or raise; they are taken not to change it. \<open>await\<close> is
  the call as a task; \<open>eval\<close> is the hook's value when the context stays as it is.
\<close>

datatype 'a hook =
    Return 'a
  | Look "ctx \<Rightarrow> 'a hook"
  | Suspend "'a hook"

primrec await :: "'a hook \<Rightarrow> 'a task" where
  "await (Return v) = Done v"
| "await (Look f) = Read (\<lambda>c. await (f c))"
| "await (Suspend h) = Yield (await h)"

primrec eval :: "'a hook \<Rightarrow> ctx \<Rightarrow> 'a" where
  "eval (Return v) c = v"
| "eval (Look f) c = eval (f c) c"
| "eval (Suspend h) c = eval h c"

text \<open>A validation rule or a condition: its result is read for its truth value, and
  it may raise.\<close>

type_synonym predicate = "(exn + bool) hook"

text \<open>
  \<^verbatim>\<open>asyncio.gather(*tasks, return_exceptions=True)\<close>. The caller suspends. The
  event loop starts the tasks in launch order, each running until it first suspends or
  ends (\<open>start\<close>). From then on a suspended task is resumed whenever what it waits
  for is ready, in an order the program does not fix: the schedule, a list of task
  indices, gives that order (\<open>resume\<close>; an index is taken modulo the number of
  tasks, and resuming a task that has ended does nothing). When the schedule is used up
  the tasks that are left run to their end in launch order. \<open>gather\<close> returns when all
  tasks have ended, with their values in launch order.

  \<open>segment\<close> is one turn of a task on the event loop: the task after it, the context
  and the events of the turn.
\<close>

primrec upto_yield :: "'a task \<Rightarrow> ('a task \<Rightarrow> 'b task) \<Rightarrow> 'b task" where
  "upto_yield (Done v) k = k (Done v)"
| "upto_yield (Read f) k = Read (\<lambda>c. upto_yield (f c) k)"
| "upto_yield (Write c t) k = Write c (upto_yield t k)"
| "upto_yield (Emit e t) k = Emit e (upto_yield t k)"
| "upto_yield (Yield t) k = k t"

primrec segment :: "'a task \<Rightarrow> ctx \<Rightarrow> 'a task \<times> ctx \<times> event list" where
  "segment (Done v) c = (Done v, c, [])"
| "segment (Read f) c = segment (f c) c"
| "segment (Write c' t) c = segment t c'"
| "segment (Emit e t) c = (case segment t c of (t', c', lg) \<Rightarrow> (t', c', e # lg))"
| "segment (Yield t) c = (t, c, [])"

fun ended :: "'a task \<Rightarrow> bool" where
  "ended (Done v) = True"
| "ended t = False"

fun start :: "'a task list \<Rightarrow> ('a task list \<Rightarrow> 'b task) \<Rightarrow> 'b task" where
  "start [] k = k []"
| "start (t # ts) k = upto_yield t (\<lambda>t'. start ts (\<lambda>ts'. k (t' # ts')))"

text \<open>What \<open>start\<close> does to the tasks, the context and the events.\<close>

fun segments :: "'a task list \<Rightarrow> ctx \<Rightarrow> 'a task list \<times> ctx \<times> event list" where
  "segments [] c = ([], c, [])"
| "segments (t # ts) c =
     (case segment t c of
        (t', c1, lg1) \<Rightarrow>
          (case segments ts c1 of (ts', c2, lg2) \<Rightarrow> (t' # ts', c2, lg1 @ lg2)))"

fun finish_all :: "'a task list \<Rightarrow> 'a list task" where
  "finish_all [] = Done []"
| "finish_all (t # ts) = bind t (\<lambda>v. bind (finish_all ts) (\<lambda>vs. Done (v # vs)))"

fun resume :: "nat list \<Rightarrow> 'a task list \<Rightarrow> 'a list task" where
  "resume schedule ts =
     (if list_all ended ts then finish_all ts
      else (case schedule of
              [] \<Rightarrow> finish_all ts
            | j # later \<Rightarrow>
                upto_yield (ts ! (j mod length ts))
                  (\<lambda>t'. Yield (resume later (ts[j mod length ts := t'])))))"

declare resume.simps [simp del]

definition gather :: "nat list \<Rightarrow> 'a task list \<Rightarrow> 'a list task" where
  "gather schedule ts = Yield (start ts (\<lambda>ts'. Yield (resume schedule ts')))"

text \<open>The values a task can end with, whatever it reads.\<close>

primrec outcomes :: "'a task \<Rightarrow> 'a set" where
  "outcomes (Done v) = {v}"
| "outcomes (Read f) = (\<Union>c. outcomes (f c))"
| "outcomes (Write c t) = outcomes t"
| "outcomes (Emit e t) = outcomes t"
| "outcomes (Yield t) = outcomes t"

datatype failure_policy = Abort | Retry

text \<open>
  The instruction objects. \<open>AdvancedInstruction\<close> is a leaf with arbitrary
  \<^verbatim>\<open>_validate\<close> and \<^verbatim>\<open>_execute_impl\<close> hooks (any user subclass; the hooks are
  taken to return fresh values). \<open>Raising\<close> is not an
  engine instruction: it stands for a child object whose \<^verbatim>\<open>execute\<close> coroutine
  itself raises, the case the source's \<^verbatim>\<open>except Exception\<close> and
  \<^verbatim>\<open>return_exceptions=True\<close> branches are written for. \<open>IterativeInstruction\<close>
  carries the parameters of its loop: \<^verbatim>\<open>max_iterations\<close>, the body hook, the stop
  condition and what to do with a failed iteration (see below).
\<close>

datatype instruction =
    AdvancedInstruction string string "(exn + ValidationResult) hook" "(exn + data) hook"
  | SimpleInstruction string string "predicate list"
  | SimpleCompositeInstruction string string "instruction list"
  | SimpleParallelInstruction string string "instruction list"
  | ConditionalInstructionTest string string "(predicate \<times> instruction) list"
  | IterativeInstruction string string nat "nat \<Rightarrow> (exn + data) hook" "nat \<Rightarrow> data \<Rightarrow> bool"
      failure_policy
  | Raising string exn

fun name :: "instruction \<Rightarrow> string" where
  "name (AdvancedInstruction n d v b) = n"
| "name (SimpleInstruction n d rules) = n"
| "name (SimpleCompositeInstruction n d cs) = n"
| "name (SimpleParallelInstruction n d cs) = n"
| "name (ConditionalInstructionTest n d conds) = n"
| "name (IterativeInstruction n d m b s p) = n"
| "name (Raising n e) = n"

fun foreign :: "instruction \<Rightarrow> bool" where
  "foreign (Raising n e) = True"
| "foreign i = False"

subsection \<open>Python built-ins the source uses\<close>

text \<open>\<^verbatim>\<open>sep.join(xs)\<close>.\<close>

fun join :: "string \<Rightarrow> string list \<Rightarrow> string" where
  "join sep [] = []"
| "join sep [x] = x"
| "join sep (x # y # ys) = x @ sep @ join sep (y # ys)"

text \<open>
  \<^verbatim>\<open>context.update(other)\<close>. A dictionary is merged key by key, a key already
  present keeping its position. \<^verbatim>\<open>None\<close> is not iterable. A list is read as a
  sequence of key/value pairs: the empty list changes nothing, and a list of
  \<^verbatim>\<open>InstructionResult\<close> objects (taken to be plain, non-iterable objects) is
  refused at its first element, before anything is stored.
\<close>

definition dict_merge :: "ctx \<Rightarrow> (string \<times> pyval) list \<Rightarrow> ctx" where
  "dict_merge c kvs = foldl (\<lambda>acc (k, v). AList.update k v acc) c kvs"

fun dict_update :: "ctx \<Rightarrow> data \<Rightarrow> exn + ctx" where
  "dict_update c (DDict kvs) = Inr (dict_merge c kvs)"
| "dict_update c DNone = Inl (TypeError '''NoneType' object is not iterable'')"
| "dict_update c (DResults []) = Inr c"
| "dict_update c (DResults (r # rs)) =
     Inl (TypeError ''cannot convert dictionary update sequence element #0 to a sequence'')"

subsection \<open>SimpleInstruction\<close>

text \<open>
  \<^verbatim>\<open>SimpleInstruction._validate\<close>: the rules are awaited in order; the first one
  that returns a false value or raises ends the loop with an invalid result.
\<close>

fun validate :: "string \<Rightarrow> predicate list \<Rightarrow> ValidationResult task" where
  "validate n [] =
     Done \<lparr>is_valid = True, score = 1, metrics = [], violations = []\<rparr>"
| "validate n (rule # rules) =
     Emit (EvRule n)
       (bind (await rule)
          (\<lambda>out. case out of
             Inl e \<Rightarrow>
               Done \<lparr>is_valid = False, score = 0, metrics = [],
                     violations = [''Error in validation: '' @ str e]\<rparr>
           | Inr ok \<Rightarrow>
               if \<not> ok then
                 Done \<lparr>is_valid = False, score = 0, metrics = [],
                       violations = [''Failed validation rule'']\<rparr>
               else validate n rules))"

text \<open>\<^verbatim>\<open>SimpleInstruction._execute_impl\<close>.\<close>

definition simple_execute_impl :: "string \<Rightarrow> (exn + data) task" where
  "simple_execute_impl n =
     Done (Inr (DDict [(''name'', PStr n), (''result'', PStr ''success'')]))"

subsection \<open>The execute wrapper\<close>

text \<open>
  Modelled from the spec: the base classes' \<^verbatim>\<open>execute\<close> is missing from the
  sources. Per sections 4.1 and 4.2 it validates, returns \<^verbatim>\<open>Failed\<close> with the
  joined violations when validation fails (the body is not called), and otherwise runs
  the body hook: a normal return gives \<^verbatim>\<open>Completed\<close> with the returned data, a
  raised failure gives \<^verbatim>\<open>Failed\<close> with the failure's message. \<open>reject\<close> is the
  result of the first exit, \<open>finish\<close> that of the second. A \<^verbatim>\<open>_validate\<close> hook
  that raises counts as a failed validation with one synthetic violation.
\<close>

definition reject :: "ValidationResult \<Rightarrow> InstructionResult" where
  "reject v = InstructionResult Failed DNone (Some (join '', '' (violations v)))"

definition finish :: "exn + data \<Rightarrow> InstructionResult" where
  "finish body =
     (case body of
        Inl e \<Rightarrow> InstructionResult Failed DNone (Some (str e))
      | Inr d \<Rightarrow> InstructionResult Completed d None)"

definition validate_hook :: "exn + ValidationResult \<Rightarrow> ValidationResult" where
  "validate_hook out =
     (case out of
        Inl e \<Rightarrow>
          \<lparr>is_valid = False, score = 0, metrics = [],
           violations = [''Error in validation: '' @ str e]\<rparr>
      | Inr r \<Rightarrow> r)"

subsection \<open>IterativeInstruction\<close>

text \<open>
  Modelled from the spec: \<^verbatim>\<open>IterativeInstruction\<close> is missing from the sources.
  Per section 4.6 the body hook is executed and the iteration counter incremented until
  the counter reaches \<^verbatim>\<open>max_iterations\<close> or the stop condition holds of the
  iteration's output. The hook and the stop condition are given the number of the
  iteration. A failed iteration ends the loop under \<open>Abort\<close> and is retried within the
  budget under \<open>Retry\<close>. The data exposes the number of iterations performed and the
  last output.
\<close>

function iterative_execute_impl ::
  "string \<Rightarrow> nat \<Rightarrow> (nat \<Rightarrow> (exn + data) hook) \<Rightarrow> (nat \<Rightarrow> data \<Rightarrow> bool) \<Rightarrow>
   failure_policy \<Rightarrow> nat \<Rightarrow> (exn + data) task" where
  "iterative_execute_impl n max_iterations body stop pol counter =
     Emit (EvIter n)
       (bind (await (body counter))
          (\<lambda>out. case out of
             Inr d \<Rightarrow>
               if Suc counter \<ge> max_iterations \<or> stop counter d then
                 Done (Inr (DDict [(''iterations'', PInt (int (Suc counter))),
                                   (''result'', PData d)]))
               else iterative_execute_impl n max_iterations body stop pol (Suc counter)
           | Inl e \<Rightarrow>
               if pol = Abort \<or> Suc counter \<ge> max_iterations then Done (Inl e)
               else iterative_execute_impl n max_iterations body stop pol (Suc counter)))"
  by pat_completeness auto
termination
  by (relation "measure (\<lambda>(n, m, body, stop, pol, counter). m - counter)") auto

declare iterative_execute_impl.simps [simp del]

subsection \<open>The combinators\<close>

text \<open>
  \<^verbatim>\<open>SimpleParallelInstruction._execute_impl\<close>, after the gather: results that are
  \<^verbatim>\<open>InstructionResult\<close> objects contribute their data, raised exceptions their
  message; any message makes the body raise.
\<close>

fun separate :: "(exn + InstructionResult) list \<Rightarrow> data list \<times> string list" where
  "separate [] = ([], [])"
| "separate (r # results) =
     (case separate results of
        (successful_results, failed_results) \<Rightarrow>
          (case r of
             Inr res \<Rightarrow> (data res # successful_results, failed_results)
           | Inl e \<Rightarrow> (successful_results, str e # failed_results)))"

definition parallel_collect :: "(exn + InstructionResult) list \<Rightarrow> exn + data" where
  "parallel_collect results =
     (case separate results of
        (successful_results, failed_results) \<Rightarrow>
          if failed_results \<noteq> [] then
            Inl (Exception (''One or more instructions failed: '' @ join '', '' failed_results))
          else Inr (DDict [(''results'', PList (map PData successful_results))]))"

text \<open>
  Modelled from the spec: the \<^verbatim>\<open>_validate\<close> the combinators inherit is missing from
  the sources; the combinators of the test file define no hook and add no rules, and
  their validation is taken to pass without events. For the leaf classes the validation
  pass is their own \<^verbatim>\<open>_validate\<close> hook.
\<close>

fun validation :: "instruction \<Rightarrow> ValidationResult task" where
  "validation (AdvancedInstruction n d v b) = bind (await v) (\<lambda>out. Done (validate_hook out))"
| "validation (SimpleInstruction n d rules) = validate n rules"
| "validation i = Done \<lparr>is_valid = True, score = 1, metrics = [], violations = []\<rparr>"

text \<open>
  Modelled from the spec: \<open>execute\<close>, the wrapper of sections 4.1 and 4.2 described
  above (validate, then \<open>reject\<close> or run the body and \<open>finish\<close>). The other
  functions of the recursion are the source's: \<open>execute_impl\<close> is the
  \<^verbatim>\<open>_execute_impl\<close> of each class, and the loops of the combinators call
  \<open>execute\<close> on their children. \<open>schedules\<close> gives, for the parallel instruction
  of each name, the order in which the event loop resumes its suspended children.

  \<^item> \<open>composite_execute_impl\<close> is the loop of
    \<^verbatim>\<open>SimpleCompositeInstruction._execute_impl\<close>, with the \<^verbatim>\<open>results\<close> list so far.
  \<^item> \<open>conditional_execute_impl\<close> is the loop of
    \<^verbatim>\<open>ConditionalInstructionTest._execute_impl\<close>.
  \<^item> \<open>Raising\<close> has no hook of its own: its \<open>execute\<close> raises, and
    \<open>execute_impl\<close>, which \<open>execute\<close> never reaches for it, repeats the raise.
\<close>

function (sequential)
      execute :: "(string \<Rightarrow> nat list) \<Rightarrow> instruction \<Rightarrow> (exn + InstructionResult) task"
  and execute_impl :: "(string \<Rightarrow> nat list) \<Rightarrow> instruction \<Rightarrow> (exn + data) task"
  and composite_execute_impl ::
        "(string \<Rightarrow> nat list) \<Rightarrow> instruction list \<Rightarrow> InstructionResult list \<Rightarrow> (exn + data) task"
  and conditional_execute_impl ::
        "(string \<Rightarrow> nat list) \<Rightarrow> string \<Rightarrow> (predicate \<times> instruction) list \<Rightarrow> (exn + data) task"
where
  "execute schedules (Raising n e) = Emit (EvExecute n) (Done (Inl e))"
| "execute schedules i =
     Emit (EvExecute (name i))
       (bind (validation i)
          (\<lambda>v. if is_valid v then
                 Emit (EvImpl (name i))
                   (bind (execute_impl schedules i) (\<lambda>body. Done (Inr (finish body))))
               else Done (Inr (reject v))))"
| "execute_impl schedules (AdvancedInstruction n d v b) = await b"
| "execute_impl schedules (SimpleInstruction n d rules) = simple_execute_impl n"
| "execute_impl schedules (SimpleCompositeInstruction n d instructions) =
     composite_execute_impl schedules instructions []"
| "execute_impl schedules (SimpleParallelInstruction n d instructions) =
     bind (gather (schedules n) (map (execute schedules) (take 2 instructions)))
       (\<lambda>results. Done (parallel_collect results))"
| "execute_impl schedules (ConditionalInstructionTest n d conditions) =
     conditional_execute_impl schedules n conditions"
| "execute_impl schedules (IterativeInstruction n d max_iterations body stop pol) =
     iterative_execute_impl n max_iterations body stop pol 0"
| "execute_impl schedules (Raising n e) = Done (Inl e)"
| "composite_execute_impl schedules [] results = Done (Inr (DResults results))"
| "composite_execute_impl schedules (instruction # rest) results =
     (if name instruction = ''part1'' then
        Done (Inl (Exception (''Error in '' @ name instruction @ '': ''
                              @ str (Exception ''Simulated error in part1''))))
      else
        bind (execute schedules instruction)
          (\<lambda>out. case out of
             Inl e \<Rightarrow>
               Done (Inl (Exception (''Error in '' @ name instruction @ '': '' @ str e)))
           | Inr result \<Rightarrow>
               Read (\<lambda>context. case dict_update context (data result) of
                  Inl e \<Rightarrow>
                    Done (Inl (Exception (''Error in '' @ name instruction @ '': '' @ str e)))
                | Inr context2 \<Rightarrow>
                    Write context2
                      (composite_execute_impl schedules rest (results @ [result])))))"
| "conditional_execute_impl schedules n [] =
     Done (Inl (ValueError ''No matching condition found''))"
| "conditional_execute_impl schedules n ((condition, instruction) # rest) =
     Emit (EvCond n)
       (bind (await condition)
          (\<lambda>out. case out of
             Inl e \<Rightarrow> Done (Inl e)
           | Inr holds \<Rightarrow>
               if holds then
                 bind (execute schedules instruction)
                   (\<lambda>r. case r of
                      Inl e \<Rightarrow> Done (Inl e)
                    | Inr result \<Rightarrow> Done (Inr (DDict [(''result'', PData (data result))])))
               else conditional_execute_impl schedules n rest))"
  by pat_completeness auto
termination
proof (relation "measure (\<lambda>x. case x of
          Inl (Inl (s, i)) \<Rightarrow> 2 * size i + 1
        | Inl (Inr (s, i)) \<Rightarrow> 2 * size i
        | Inr (Inl (s, cs, rs)) \<Rightarrow> 2 * size_list size cs
        | Inr (Inr (s, n, conds)) \<Rightarrow> 2 * size_list (size_prod (\<lambda>p. 0) size) conds)",
       goal_cases)
  case (9 s n d instructions x)
  then have "x \<in> set instructions" by (auto dest: in_set_takeD)
  then have "size x \<le> size_list size instructions" by (induction instructions) auto
  then show ?case by simp
qed auto

subsection \<open>Context threading\<close>

text \<open>
  The shared context after the given children of a composite have run in order, each
  child's data merged into the context it left behind: the context in which the next
  child runs.
\<close>

fun merged_context :: "(string \<Rightarrow> nat list) \<Rightarrow> instruction list \<Rightarrow> ctx \<Rightarrow> ctx" where
  "merged_context schedules [] context = context"
| "merged_context schedules (instruction # rest) context =
     (case run (execute schedules instruction) context of
        (Inl e, context1, lg) \<Rightarrow> merged_context schedules rest context1
      | (Inr result, context1, lg) \<Rightarrow>
          (case dict_update context1 (data result) of
             Inl e \<Rightarrow> merged_context schedules rest context1
           | Inr context2 \<Rightarrow> merged_context schedules rest context2))"

section \<open>Properties\<close>

subsection \<open>Awaiting a task alone\<close>

text \<open>
  What \<open>run\<close> gives for the loops and the wrapper: the equations of a sequential
  program. They replace the task equations in the simplifier.
\<close>

lemma run_bind:
  "run (bind t k) c =
     (case run t c of (v, c1, lg1) \<Rightarrow> case run (k v) c1 of (w, c2, lg2) \<Rightarrow> (w, c2, lg1 @ lg2))"
  by (induction t arbitrary: c) (auto split: prod.splits)

lemma run_await: "run (await h) c = (eval h c, c, [])"
  by (induction h arbitrary: c) auto

lemma run_validate_Cons:
  "run (validate n (rule # rules)) c =
     (case eval rule c of
        Inl e \<Rightarrow>
          (\<lparr>is_valid = False, score = 0, metrics = [],
            violations = [''Error in validation: '' @ str e]\<rparr>, c, [EvRule n])
      | Inr ok \<Rightarrow>
          if \<not> ok then
            (\<lparr>is_valid = False, score = 0, metrics = [],
              violations = [''Failed validation rule'']\<rparr>, c, [EvRule n])
          else (case run (validate n rules) c of (v, c', lg) \<Rightarrow> (v, c', EvRule n # lg)))"
  by (simp add: run_bind run_await split: sum.splits prod.splits)

lemma run_validate_context: "fst (snd (run (validate n rules) c)) = c"
  by (induction rules) (auto simp: run_validate_Cons simp del: validate.simps(2) split: sum.splits prod.splits)

lemma run_validation_context: "fst (snd (run (validation i) c)) = c"
  by (cases i) (auto simp: run_bind run_await run_validate_context)

lemma execute_engine:
  "\<not> foreign i \<Longrightarrow> execute s i =
     Emit (EvExecute (name i))
       (bind (validation i)
          (\<lambda>v. if is_valid v then
                 Emit (EvImpl (name i))
                   (bind (execute_impl s i) (\<lambda>body. Done (Inr (finish body))))
               else Done (Inr (reject v))))"
  by (cases i; hypsubst; simp)

declare execute.simps [simp del]

lemma run_execute_engine:
  assumes "\<not> foreign i"
  shows "run (execute s i) c =
     (case run (validation i) c of
        (v, c1, vlog) \<Rightarrow>
          if is_valid v then
            (case run (execute_impl s i) c of
               (body, c2, lg) \<Rightarrow>
                 (Inr (finish body), c2, EvExecute (name i) # vlog @ EvImpl (name i) # lg))
          else (Inr (reject v), c, EvExecute (name i) # vlog))"
proof -
  obtain v c1 vlog where v: "run (validation i) c = (v, c1, vlog)"
    by (cases "run (validation i) c")
  with run_validation_context [of i c] have c1: "c1 = c" by simp
  obtain body c2 lg where b: "run (execute_impl s i) c = (body, c2, lg)"
    by (cases "run (execute_impl s i) c")
  from v c1 b show ?thesis by (simp add: execute_engine [OF assms] run_bind)
qed

lemma run_composite_Cons:
  "run (composite_execute_impl s (instruction # rest) results) c =
     (if name instruction = ''part1'' then
        (Inl (Exception (''Error in '' @ name instruction @ '': ''
                         @ str (Exception ''Simulated error in part1''))), c, [])
      else
        (case run (execute s instruction) c of
           (Inl e, c1, lg) \<Rightarrow>
             (Inl (Exception (''Error in '' @ name instruction @ '': '' @ str e)), c1, lg)
         | (Inr result, c1, lg) \<Rightarrow>
             (case dict_update c1 (data result) of
                Inl e \<Rightarrow>
                  (Inl (Exception (''Error in '' @ name instruction @ '': '' @ str e)), c1, lg)
              | Inr c2 \<Rightarrow>
                  (case run (composite_execute_impl s rest (results @ [result])) c2 of
                     (out, c3, lg') \<Rightarrow> (out, c3, lg @ lg')))))"
  by (simp add: run_bind split: prod.splits sum.splits)

lemma run_conditional_Cons:
  "run (conditional_execute_impl s n ((condition, instruction) # rest)) c =
     (case eval condition c of
        Inl e \<Rightarrow> (Inl e, c, [EvCond n])
      | Inr holds \<Rightarrow>
          if holds then
            (case run (execute s instruction) c of
               (Inl e, c1, lg) \<Rightarrow> (Inl e, c1, EvCond n # lg)
             | (Inr result, c1, lg) \<Rightarrow>
                 (Inr (DDict [(''result'', PData (data result))]), c1, EvCond n # lg))
          else
            (case run (conditional_execute_impl s n rest) c of
               (out, c1, lg) \<Rightarrow> (out, c1, EvCond n # lg)))"
  by (simp add: run_bind run_await split: prod.splits sum.splits)

lemma run_upto_yield:
  "run (upto_yield t k) c =
     (case segment t c of (t', c1, lg1) \<Rightarrow>
        case run (k t') c1 of (w, c2, lg2) \<Rightarrow> (w, c2, lg1 @ lg2))"
  by (induction t arbitrary: c) (auto split: prod.splits)

lemma run_execute_Raising: "run (execute s (Raising n e)) c = (Inl e, c, [EvExecute n])"
  by (simp add: execute.simps)

lemma run_execute_leaf:
  "run (execute s (AdvancedInstruction n d v b)) c =
     (if is_valid (validate_hook (eval v c))
      then (Inr (finish (eval b c)), c, [EvExecute n, EvImpl n])
      else (Inr (reject (validate_hook (eval v c))), c, [EvExecute n]))"
  "run (execute s (SimpleInstruction n d rules)) c =
     (case run (validate n rules) c of
        (v, c1, vlog) \<Rightarrow>
          if is_valid v
          then (Inr (finish (Inr (DDict [(''name'', PStr n), (''result'', PStr ''success'')]))),
                c, EvExecute n # vlog @ [EvImpl n])
          else (Inr (reject v), c, EvExecute n # vlog))"
proof -
  show "run (execute s (AdvancedInstruction n d v b)) c =
     (if is_valid (validate_hook (eval v c))
      then (Inr (finish (eval b c)), c, [EvExecute n, EvImpl n])
      else (Inr (reject (validate_hook (eval v c))), c, [EvExecute n]))"
    by (simp add: run_execute_engine run_bind run_await)
  obtain v c1 vlog where v: "run (validate n rules) c = (v, c1, vlog)"
    by (cases "run (validate n rules) c")
  with run_validate_context [of n rules c] have "c1 = c" by simp
  with v show "run (execute s (SimpleInstruction n d rules)) c =
     (case run (validate n rules) c of
        (v, c1, vlog) \<Rightarrow>
          if is_valid v
          then (Inr (finish (Inr (DDict [(''name'', PStr n), (''result'', PStr ''success'')]))),
                c, EvExecute n # vlog @ [EvImpl n])
          else (Inr (reject v), c, EvExecute n # vlog))"
    by (simp add: run_execute_engine simple_execute_impl_def)
qed

lemma run_execute_combinator:
  "run (execute s (SimpleCompositeInstruction n d cs)) c =
     (case run (composite_execute_impl s cs []) c of
        (body, c2, lg) \<Rightarrow> (Inr (finish body), c2, EvExecute n # EvImpl n # lg))"
  "run (execute s (SimpleParallelInstruction n d cs)) c =
     (case run (gather (s n) (map (execute s) (take 2 cs))) c of
        (results, c2, lg) \<Rightarrow>
          (Inr (finish (parallel_collect results)), c2, EvExecute n # EvImpl n # lg))"
  "run (execute s (ConditionalInstructionTest n d conds)) c =
     (case run (conditional_execute_impl s n conds) c of
        (body, c2, lg) \<Rightarrow> (Inr (finish body), c2, EvExecute n # EvImpl n # lg))"
  "run (execute s (IterativeInstruction n d m body stop pol)) c =
     (case run (iterative_execute_impl n m body stop pol 0) c of
        (out, c2, lg) \<Rightarrow> (Inr (finish out), c2, EvExecute n # EvImpl n # lg))"
  by (simp_all add: run_execute_engine run_bind split: prod.splits)

declare composite_execute_impl.simps(2) [simp del]
declare conditional_execute_impl.simps(2) [simp del]
declare validate.simps(2) [simp del]
declare run_execute_Raising [simp] run_execute_leaf [simp] run_execute_combinator [simp]
  run_composite_Cons [simp] run_conditional_Cons [simp] run_validate_Cons [simp]

subsection \<open>The wrapper\<close>

lemma outcomes_bind: "outcomes (bind t k) = (\<Union>v\<in>outcomes t. outcomes (k v))"
  by (induction t) auto

lemma run_in_outcomes: "fst (run t c) \<in> outcomes t"
proof (induction t arbitrary: c)
  case (Read f)
  have "fst (run (f c) c) \<in> outcomes (f c)" by (rule Read.IH) simp
  then show ?case by auto
next
  case (Emit e t)
  from Emit.IH [of c] show ?case by (cases "run t c") simp
qed simp_all

lemma status_finish: "status (finish body) = Completed \<or> status (finish body) = Failed"
  by (cases body) (simp_all add: finish_def)

lemma status_reject: "status (reject v) = Failed"
  by (simp add: reject_def)

lemma outcomes_execute:
  assumes "\<not> foreign i" and "out \<in> outcomes (execute s i)"
  shows "\<exists>r. out = Inr r \<and> (status r = Completed \<or> status r = Failed)"
proof -
  from assms(2) have "out \<in> outcomes
     (Emit (EvExecute (name i))
       (bind (validation i)
          (\<lambda>v. if is_valid v then
                 Emit (EvImpl (name i))
                   (bind (execute_impl s i) (\<lambda>body. Done (Inr (finish body))))
               else Done (Inr (reject v)))))"
    by (simp add: execute_engine [OF assms(1)])
  then show ?thesis
    using status_finish status_reject by (auto simp: outcomes_bind split: if_splits)
qed

lemma execute_returns:
  assumes "\<not> foreign i"
  shows "\<exists>r c lg. run (execute s i) cx = (Inr r, c, lg)"
proof -
  obtain v c1 vlog where v: "run (validation i) cx = (v, c1, vlog)"
    by (cases "run (validation i) cx")
  obtain out c lg where b: "run (execute_impl s i) cx = (out, c, lg)"
    by (cases "run (execute_impl s i) cx")
  from assms v b show ?thesis by (simp add: run_execute_engine)
qed

text \<open>
  Claim C1. For every instruction of the engine, every context and every schedule,
  \<open>execute\<close> awaited alone returns a result and raises nothing; the result's status
  is \<open>Completed\<close> or \<open>Failed\<close>; it is \<open>Failed\<close> exactly when the validation pass
  was invalid or the body hook raised; a completed result carries no error, a failed one
  an error and no data. Interleaved with other tasks it still can only end with a result
  whose status is \<open>Completed\<close> or \<open>Failed\<close>.
\<close>

theorem execute_never_raises:
  assumes "\<not> foreign i"
  shows "\<exists>r c lg. run (execute schedules i) context = (Inr r, c, lg)
    \<and> (status r = Completed \<or> status r = Failed)
    \<and> (status r = Failed \<longleftrightarrow>
          \<not> is_valid (fst (run (validation i) context))
          \<or> isl (fst (run (execute_impl schedules i) context)))
    \<and> (status r = Completed \<longrightarrow> error r = None)
    \<and> (status r = Failed \<longrightarrow> data r = DNone \<and> error r \<noteq> None)
    \<and> (\<forall>out\<in>outcomes (execute schedules i).
          \<exists>r'. out = Inr r' \<and> (status r' = Completed \<or> status r' = Failed))"
proof -
  obtain v c1 vlog where v: "run (validation i) context = (v, c1, vlog)"
    by (cases "run (validation i) context")
  obtain out c lg where b: "run (execute_impl schedules i) context = (out, c, lg)"
    by (cases "run (execute_impl schedules i) context")
  have all: "\<forall>out\<in>outcomes (execute schedules i).
          \<exists>r'. out = Inr r' \<and> (status r' = Completed \<or> status r' = Failed)"
    using outcomes_execute [OF assms] by blast
  show ?thesis
  proof (cases "is_valid v")
    case False
    with assms v all show ?thesis by (simp add: run_execute_engine reject_def)
  next
    case True
    with assms v b all show ?thesis
      by (cases out) (simp_all add: run_execute_engine finish_def)
  qed
qed

theorem execute_never_raises_witness:
  "\<not> foreign (ConditionalInstructionTest ''conditional'' ''Conditional instruction''
       [(Return (Inl (ValueError ''bad condition'')), SimpleInstruction ''then'' ''Then'' [])])
   \<and> run (execute (\<lambda>n. []) (ConditionalInstructionTest ''conditional'' ''Conditional instruction''
       [(Return (Inl (ValueError ''bad condition'')), SimpleInstruction ''then'' ''Then'' [])])) []
     = (Inr (InstructionResult Failed DNone (Some ''bad condition'')), [],
        [EvExecute ''conditional'', EvImpl ''conditional'', EvCond ''conditional''])"
  using execute_never_raises
    [of "ConditionalInstructionTest ''conditional'' ''Conditional instruction''
       [(Return (Inl (ValueError ''bad condition'')), SimpleInstruction ''then'' ''Then'' [])]"
       "\<lambda>n. []" "[]"]
  by (simp add: finish_def)

subsection \<open>Validation rules\<close>

lemma validate_first_failure:
  "k < length rules \<Longrightarrow> \<forall>j<k. eval (rules ! j) cx = Inr True \<Longrightarrow> eval (rules ! k) cx \<noteq> Inr True \<Longrightarrow>
   run (validate n rules) cx =
     (\<lparr>is_valid = False, score = 0, metrics = [],
       violations = [case eval (rules ! k) cx of
                       Inl e \<Rightarrow> ''Error in validation: '' @ str e
                     | Inr ok \<Rightarrow> ''Failed validation rule'']\<rparr>,
      cx, replicate (Suc k) (EvRule n))"
proof (induction rules arbitrary: k)
  case Nil
  then show ?case by simp
next
  case (Cons rule rules)
  show ?case
  proof (cases k)
    case 0
    with Cons.prems show ?thesis
      by (cases "eval rule cx") (auto simp: run_validate_Cons simp del: validate.simps)
  next
    case (Suc k')
    from Cons.prems Suc have head: "eval rule cx = Inr True" by auto
    from Cons.prems Suc have "k' < length rules" "\<forall>j<k'. eval (rules ! j) cx = Inr True"
      "eval (rules ! k') cx \<noteq> Inr True" by auto
    from Cons.IH [OF this] head Suc show ?thesis
      by (simp add: run_validate_Cons del: validate.simps)
  qed
qed

lemma first_failure:
  assumes "\<exists>j<length rules. eval (rules ! j) cx \<noteq> Inr True"
  shows "\<exists>k<length rules. (\<forall>j<k. eval (rules ! j) cx = Inr True) \<and> eval (rules ! k) cx \<noteq> Inr True"
proof -
  define P where "P j \<longleftrightarrow> j < length rules \<and> eval (rules ! j) cx \<noteq> Inr True" for j
  from assms have ex: "\<exists>j. P j" by (auto simp: P_def)
  define k where "k = (LEAST j. P j)"
  from ex have Pk: "P k" unfolding k_def by (rule LeastI_ex)
  have "\<forall>j<k. eval (rules ! j) cx = Inr True"
  proof (intro allI impI)
    fix j assume "j < k"
    then have "\<not> P j" unfolding k_def by (rule not_less_Least)
    moreover from \<open>j < k\<close> Pk have "j < length rules" by (simp add: P_def)
    ultimately show "eval (rules ! j) cx = Inr True" by (simp add: P_def)
  qed
  with Pk show ?thesis by (auto simp: P_def)
qed

text \<open>
  Claim C2. For a \<open>SimpleInstruction\<close> (the \<^verbatim>\<open>AdvancedInstruction\<close> with an ordered
  list of validation rules): if some rule returns false or raises on the context, there
  is a first such rule \<open>k\<close>; \<open>execute\<close> returns \<open>Failed\<close> with the violation of
  rule \<open>k\<close>; exactly the rules \<open>0..k\<close> were evaluated, in order; and the body hook was
  not invoked (no \<open>EvImpl\<close> event).
\<close>

theorem validation_failure_skips_body:
  assumes "\<exists>j<length rules. eval (rules ! j) context \<noteq> Inr True"
  shows "\<exists>k<length rules.
           (\<forall>j<k. eval (rules ! j) context = Inr True) \<and> eval (rules ! k) context \<noteq> Inr True
         \<and> run (execute schedules (SimpleInstruction n d rules)) context =
             (Inr (InstructionResult Failed DNone
                (Some (case eval (rules ! k) context of
                         Inl e \<Rightarrow> ''Error in validation: '' @ str e
                       | Inr ok \<Rightarrow> ''Failed validation rule''))),
              context, EvExecute n # replicate (Suc k) (EvRule n))
         \<and> EvImpl n \<notin> set (snd (snd (run (execute schedules (SimpleInstruction n d rules)) context)))"
proof -
  from first_failure [OF assms] obtain k where k: "k < length rules"
    "\<forall>j<k. eval (rules ! j) context = Inr True" "eval (rules ! k) context \<noteq> Inr True" by blast
  from validate_first_failure [OF k, of n]
  have "run (execute schedules (SimpleInstruction n d rules)) context =
             (Inr (InstructionResult Failed DNone
                (Some (case eval (rules ! k) context of
                         Inl e \<Rightarrow> ''Error in validation: '' @ str e
                       | Inr ok \<Rightarrow> ''Failed validation rule''))),
              context, EvExecute n # replicate (Suc k) (EvRule n))"
    by (simp add: reject_def)
  with k show ?thesis by auto
qed

theorem validation_failure_skips_body_witness:
  "eval ([Return (Inr True), Suspend (Return (Inr False)), Return (Inl (Exception ''unreached''))] ! 1) []
      \<noteq> (Inr True :: exn + bool)
   \<and> run (execute (\<lambda>n. []) (SimpleInstruction ''test'' ''Test instruction''
        [Return (Inr True), Suspend (Return (Inr False)), Return (Inl (Exception ''unreached''))])) []
      = (Inr (InstructionResult Failed DNone (Some ''Failed validation rule'')), [],
         [EvExecute ''test'', EvRule ''test'', EvRule ''test''])"
  using validation_failure_skips_body
    [of "[Return (Inr True), Suspend (Return (Inr False)), Return (Inl (Exception ''unreached''))]"
      "[]" "\<lambda>n. []" "''test''" "''Test instruction''"]
  by (simp add: reject_def)

subsection \<open>SimpleCompositeInstruction\<close>

lemma map_of_dict_merge: "map_of (dict_merge c kvs) = map_of c ++ map_of (rev kvs)"
  unfolding dict_merge_def
proof (induction kvs arbitrary: c)
  case Nil
  then show ?case by simp
next
  case (Cons kv kvs)
  obtain k v where kv: "kv = (k, v)" by (cases kv)
  have "map_of (foldl (\<lambda>acc (k, v). AList.update k v acc) c (kv # kvs))
      = map_of (AList.update k v c) ++ map_of (rev kvs)"
    using Cons.IH [of "AList.update k v c"] kv by simp
  also have "\<dots> = map_of c ++ map_of (rev (kv # kvs))"
    unfolding kv by (rule ext) (simp add: update_conv' map_add_def split: option.splits)
  finally show ?case .
qed

lemma composite_all_succeed:
  assumes "\<forall>k<length cs. name (cs ! k) \<noteq> ''part1''
     \<and> (\<exists>r c lg kvs. run (execute s (cs ! k)) (merged_context s (take k cs) cx) = (Inr r, c, lg)
           \<and> status r = Completed \<and> data r = DDict kvs)"
  shows "\<exists>results lg. run (composite_execute_impl s cs acc) cx
             = (Inr (DResults (acc @ results)), merged_context s cs cx, lg)
     \<and> length results = length cs
     \<and> (\<forall>k<length cs. \<exists>c lg' kvs.
           run (execute s (cs ! k)) (merged_context s (take k cs) cx) = (Inr (results ! k), c, lg')
         \<and> status (results ! k) = Completed \<and> data (results ! k) = DDict kvs
         \<and> merged_context s (take (Suc k) cs) cx = dict_merge c kvs)"
  using assms
proof (induction cs arbitrary: cx acc)
  case Nil
  then show ?case by simp
next
  case (Cons i cs)
  from Cons.prems have "name i \<noteq> ''part1''
     \<and> (\<exists>r c lg kvs. run (execute s i) cx = (Inr r, c, lg) \<and> status r = Completed \<and> data r = DDict kvs)"
    by (auto dest: spec [of _ 0])
  then obtain r c1 lg1 kvs where nm: "name i \<noteq> ''part1''"
    and ex: "run (execute s i) cx = (Inr r, c1, lg1)" and st: "status r = Completed"
    and dt: "data r = DDict kvs" by blast
  let ?c2 = "dict_merge c1 kvs"
  have step: "merged_context s (i # xs) cx = merged_context s xs ?c2" for xs
    using ex dt by simp
  have tail: "\<forall>k<length cs. name (cs ! k) \<noteq> ''part1''
     \<and> (\<exists>r c lg kvs. run (execute s (cs ! k)) (merged_context s (take k cs) ?c2) = (Inr r, c, lg)
           \<and> status r = Completed \<and> data r = DDict kvs)"
  proof (intro allI impI)
    fix k assume "k < length cs"
    then have "Suc k < length (i # cs)" by simp
    with Cons.prems have "name ((i # cs) ! Suc k) \<noteq> ''part1''
     \<and> (\<exists>r c lg kvs. run (execute s ((i # cs) ! Suc k)) (merged_context s (take (Suc k) (i # cs)) cx)
            = (Inr r, c, lg) \<and> status r = Completed \<and> data r = DDict kvs)" by blast
    then show "name (cs ! k) \<noteq> ''part1''
     \<and> (\<exists>r c lg kvs. run (execute s (cs ! k)) (merged_context s (take k cs) ?c2) = (Inr r, c, lg)
           \<and> status r = Completed \<and> data r = DDict kvs)"
      by (simp del: merged_context.simps add: step)
  qed
  from Cons.IH [OF tail, of "acc @ [r]"] obtain results lg where
    run: "run (composite_execute_impl s cs (acc @ [r])) ?c2
           = (Inr (DResults ((acc @ [r]) @ results)), merged_context s cs ?c2, lg)"
    and len: "length results = length cs"
    and each: "\<forall>k<length cs. \<exists>c lg' kvs.
           run (execute s (cs ! k)) (merged_context s (take k cs) ?c2) = (Inr (results ! k), c, lg')
         \<and> status (results ! k) = Completed \<and> data (results ! k) = DDict kvs
         \<and> merged_context s (take (Suc k) cs) ?c2 = dict_merge c kvs"
    by blast
  have "run (composite_execute_impl s (i # cs) acc) cx
      = (Inr (DResults (acc @ r # results)), merged_context s (i # cs) cx, lg1 @ lg)"
    using nm ex dt run by (simp del: merged_context.simps add: step)
  moreover have "length (r # results) = length (i # cs)" using len by simp
  moreover have "\<forall>k<length (i # cs). \<exists>c lg' kvs.
           run (execute s ((i # cs) ! k)) (merged_context s (take k (i # cs)) cx)
             = (Inr ((r # results) ! k), c, lg')
         \<and> status ((r # results) ! k) = Completed \<and> data ((r # results) ! k) = DDict kvs
         \<and> merged_context s (take (Suc k) (i # cs)) cx = dict_merge c kvs"
  proof (intro allI impI)
    fix k assume k: "k < length (i # cs)"
    show "\<exists>c lg' kvs.
           run (execute s ((i # cs) ! k)) (merged_context s (take k (i # cs)) cx)
             = (Inr ((r # results) ! k), c, lg')
         \<and> status ((r # results) ! k) = Completed \<and> data ((r # results) ! k) = DDict kvs
         \<and> merged_context s (take (Suc k) (i # cs)) cx = dict_merge c kvs"
    proof (cases k)
      case 0
      with ex st dt show ?thesis by (simp add: step [of "[]"] del: merged_context.simps(2))
    next
      case (Suc k')
      with k have "k' < length cs" by simp
      with each Suc show ?thesis by (simp del: merged_context.simps add: step)
    qed
  qed
  ultimately show ?case by blast
qed

text \<open>
  What the loop does at the first child that does not go through, the children before
  it having been merged: nothing after it runs, and the composite fails with the
  child's name. For a child whose invocation raises the message is the raised error's;
  for a child that returns a result without data, it is that of the \<^verbatim>\<open>TypeError\<close>
  of the merge.
\<close>

lemma composite_append:
  "run (composite_execute_impl s (pre @ rest) acc) cx =
     (case run (composite_execute_impl s pre acc) cx of
        (Inl e, c, lg) \<Rightarrow> (Inl e, c, lg)
      | (Inr d, c, lg) \<Rightarrow>
          (case run (composite_execute_impl s rest (case d of DResults rs \<Rightarrow> rs | _ \<Rightarrow> [])) c of
             (out, c', lg') \<Rightarrow> (out, c', lg @ lg')))"
proof (induction pre arbitrary: cx acc)
  case Nil
  then show ?case by (simp split: prod.splits)
next
  case (Cons i pre)
  show ?case
  proof (cases "name i = ''part1''")
    case True
    then show ?thesis by simp
  next
    case False
    obtain out c1 lg1 where ex: "run (execute s i) cx = (out, c1, lg1)"
      by (cases "run (execute s i) cx")
    show ?thesis
    proof (cases out)
      case (Inl e)
      with False ex show ?thesis by simp
    next
      case (Inr r)
      show ?thesis
      proof (cases "dict_update c1 (data r)")
        case (Inl e)
        with False ex Inr show ?thesis by simp
      next
        case upd: (Inr c2)
        from False ex Inr upd Cons.IH [of "acc @ [r]" c2] show ?thesis
          by (simp split: prod.splits sum.splits)
      qed
    qed
  qed
qed

lemma composite_stops_at_failed_child:
  assumes "run (composite_execute_impl s pre []) cx = (Inr (DResults rs), c, lg)"
    and "name child \<noteq> ''part1''"
    and "run (execute s child) c = (Inr r, c1, lg1)"
    and "data r = DNone"
  shows "run (execute s (SimpleCompositeInstruction n d (pre @ child # post))) cx =
    (Inr (InstructionResult Failed DNone
       (Some (''Error in '' @ name child @ '': 'NoneType' object is not iterable''))),
     c1, EvExecute n # EvImpl n # lg @ lg1)"
  using assms by (simp add: composite_append finish_def)

lemma composite_stops_at_raising_child:
  assumes "run (composite_execute_impl s pre []) cx = (Inr (DResults rs), c, lg)"
    and "name child \<noteq> ''part1''"
    and "run (execute s child) c = (Inl e, c1, lg1)"
  shows "run (execute s (SimpleCompositeInstruction n d (pre @ child # post))) cx =
    (Inr (InstructionResult Failed DNone (Some (''Error in '' @ name child @ '': '' @ str e))),
     c1, EvExecute n # EvImpl n # lg @ lg1)"
  using assms by (simp add: composite_append finish_def)

text \<open>
  Claim C3, at a failing input. The first child fails its validation and returns a
  \<open>Failed\<close> result with the error \<^verbatim>\<open>Failed validation rule\<close>. The loop does not
  look at the status: it merges the result's absent data, which raises a
  \<^verbatim>\<open>TypeError\<close>, and it is that message the composite reports after the child's
  name. The second child is not invoked.
\<close>

theorem composite_failed_child_error_lost:
  "run (execute schedules (SimpleInstruction ''a'' ''A'' [Return (Inr False)])) []
     = (Inr (InstructionResult Failed DNone (Some ''Failed validation rule'')), [],
        [EvExecute ''a'', EvRule ''a''])
   \<and> run (execute schedules (SimpleCompositeInstruction ''composite'' ''Composite instruction''
        [SimpleInstruction ''a'' ''A'' [Return (Inr False)], SimpleInstruction ''b'' ''B'' []])) []
     = (Inr (InstructionResult Failed DNone
          (Some ''Error in a: 'NoneType' object is not iterable'')), [],
        [EvExecute ''composite'', EvImpl ''composite'', EvExecute ''a'', EvRule ''a''])"
  by (simp add: finish_def reject_def)

text \<open>
  Claim C4, as stated, fails at the children of the source's own test: both complete
  when executed (the second in the context with the first one's data merged), yet the
  composite refuses a child named \<^verbatim>\<open>part1\<close> before executing it and fails.
\<close>

theorem composite_part1_counterexample:
  "run (execute (\<lambda>n. []) (SimpleInstruction ''part1'' ''Part 1'' [])) []
     = (Inr (InstructionResult Completed
          (DDict [(''name'', PStr ''part1''), (''result'', PStr ''success'')]) None),
        [], [EvExecute ''part1'', EvImpl ''part1''])
   \<and> run (execute (\<lambda>n. []) (SimpleInstruction ''part2'' ''Part 2'' []))
        [(''name'', PStr ''part1''), (''result'', PStr ''success'')]
     = (Inr (InstructionResult Completed
          (DDict [(''name'', PStr ''part2''), (''result'', PStr ''success'')]) None),
        [(''name'', PStr ''part1''), (''result'', PStr ''success'')],
        [EvExecute ''part2'', EvImpl ''part2''])
   \<and> run (execute (\<lambda>n. []) (SimpleCompositeInstruction ''composite'' ''Composite instruction''
        [SimpleInstruction ''part1'' ''Part 1'' [], SimpleInstruction ''part2'' ''Part 2'' []])) []
     = (Inr (InstructionResult Failed DNone (Some ''Error in part1: Simulated error in part1'')),
        [], [EvExecute ''composite'', EvImpl ''composite''])"
  by (simp add: finish_def simple_execute_impl_def)

text \<open>
  Claim C4, amended. For a \<open>SimpleCompositeInstruction\<close> none of whose children is
  named \<^verbatim>\<open>part1\<close> and whose children each complete with a dictionary as data when
  run in the context threaded so far: \<open>execute\<close> returns \<open>Completed\<close> with the
  list of the children's results in order; child \<open>k\<close> runs in the initial context
  with the data of the children before it merged in order; after child \<open>k\<close> its data
  is merged into the context it left (\<open>dict_merge\<close>), so the next child's context
  holds every key of that data with its value.
\<close>

theorem composite_threads_context:
  assumes "\<forall>k<length instructions. name (instructions ! k) \<noteq> ''part1''
     \<and> (\<exists>r c lg kvs.
           run (execute schedules (instructions ! k)) (merged_context schedules (take k instructions) context) = (Inr r, c, lg)
         \<and> status r = Completed \<and> data r = DDict kvs)"
  shows "\<exists>results lg.
       run (execute schedules (SimpleCompositeInstruction n d instructions)) context
         = (Inr (InstructionResult Completed (DResults results) None),
            merged_context schedules instructions context, EvExecute n # EvImpl n # lg)
     \<and> length results = length instructions
     \<and> (\<forall>k<length instructions. \<exists>c lg' kvs.
           run (execute schedules (instructions ! k)) (merged_context schedules (take k instructions) context)
             = (Inr (results ! k), c, lg')
         \<and> status (results ! k) = Completed \<and> data (results ! k) = DDict kvs
         \<and> merged_context schedules (take (Suc k) instructions) context = dict_merge c kvs
         \<and> (\<forall>key v. map_of (rev kvs) key = Some v \<longrightarrow>
               map_of (merged_context schedules (take (Suc k) instructions) context) key = Some v))"
proof -
  from composite_all_succeed [OF assms, of "[]"] obtain results lg where
    run: "run (composite_execute_impl schedules instructions []) context
           = (Inr (DResults results), merged_context schedules instructions context, lg)"
    and len: "length results = length instructions"
    and each: "\<forall>k<length instructions. \<exists>c lg' kvs.
           run (execute schedules (instructions ! k)) (merged_context schedules (take k instructions) context)
             = (Inr (results ! k), c, lg')
         \<and> status (results ! k) = Completed \<and> data (results ! k) = DDict kvs
         \<and> merged_context schedules (take (Suc k) instructions) context = dict_merge c kvs"
    by auto
  from run have "run (execute schedules (SimpleCompositeInstruction n d instructions)) context
         = (Inr (InstructionResult Completed (DResults results) None),
            merged_context schedules instructions context, EvExecute n # EvImpl n # lg)"
    by (simp add: finish_def)
  moreover have "\<forall>k<length instructions. \<exists>c lg' kvs.
           run (execute schedules (instructions ! k)) (merged_context schedules (take k instructions) context)
             = (Inr (results ! k), c, lg')
         \<and> status (results ! k) = Completed \<and> data (results ! k) = DDict kvs
         \<and> merged_context schedules (take (Suc k) instructions) context = dict_merge c kvs
         \<and> (\<forall>key v. map_of (rev kvs) key = Some v \<longrightarrow>
               map_of (merged_context schedules (take (Suc k) instructions) context) key = Some v)"
  proof (intro allI impI)
    fix k assume "k < length instructions"
    with each obtain c lg' kvs where
      e: "run (execute schedules (instructions ! k)) (merged_context schedules (take k instructions) context)
             = (Inr (results ! k), c, lg')"
      and s: "status (results ! k) = Completed" and dk: "data (results ! k) = DDict kvs"
      and m: "merged_context schedules (take (Suc k) instructions) context = dict_merge c kvs"
      by blast
    have "\<forall>key v. map_of (rev kvs) key = Some v \<longrightarrow>
               map_of (merged_context schedules (take (Suc k) instructions) context) key = Some v"
      unfolding m by (simp add: map_of_dict_merge)
    with e s dk m show "\<exists>c lg' kvs.
           run (execute schedules (instructions ! k)) (merged_context schedules (take k instructions) context)
             = (Inr (results ! k), c, lg')
         \<and> status (results ! k) = Completed \<and> data (results ! k) = DDict kvs
         \<and> merged_context schedules (take (Suc k) instructions) context = dict_merge c kvs
         \<and> (\<forall>key v. map_of (rev kvs) key = Some v \<longrightarrow>
               map_of (merged_context schedules (take (Suc k) instructions) context) key = Some v)"
      by blast
  qed
  ultimately show ?thesis using len by blast
qed

theorem composite_threads_context_witness:
  "name (SimpleInstruction ''a'' ''A'' []) \<noteq> ''part1''
   \<and> name (SimpleInstruction ''b'' ''B'' []) \<noteq> ''part1''
   \<and> run (execute (\<lambda>n. []) (SimpleInstruction ''a'' ''A'' [])) [(''input'', PStr ''test_input'')]
       = (Inr (InstructionResult Completed
            (DDict [(''name'', PStr ''a''), (''result'', PStr ''success'')]) None),
          [(''input'', PStr ''test_input'')], [EvExecute ''a'', EvImpl ''a''])
   \<and> merged_context (\<lambda>n. []) (take 1 [SimpleInstruction ''a'' ''A'' [], SimpleInstruction ''b'' ''B'' []])
        [(''input'', PStr ''test_input'')]
       = [(''input'', PStr ''test_input''), (''name'', PStr ''a''), (''result'', PStr ''success'')]
   \<and> run (execute (\<lambda>n. []) (SimpleInstruction ''b'' ''B'' [])) [(''input'', PStr ''test_input''), (''name'', PStr ''a''), (''result'', PStr ''success'')]
       = (Inr (InstructionResult Completed
            (DDict [(''name'', PStr ''b''), (''result'', PStr ''success'')]) None),
          [(''input'', PStr ''test_input''), (''name'', PStr ''a''), (''result'', PStr ''success'')],
          [EvExecute ''b'', EvImpl ''b''])
   \<and> run (execute (\<lambda>n. []) (SimpleCompositeInstruction ''composite'' ''Composite instruction''
        [SimpleInstruction ''a'' ''A'' [], SimpleInstruction ''b'' ''B'' []])) [(''input'', PStr ''test_input'')]
       = (Inr (InstructionResult Completed
            (DResults
              [InstructionResult Completed
                 (DDict [(''name'', PStr ''a''), (''result'', PStr ''success'')]) None,
               InstructionResult Completed
                 (DDict [(''name'', PStr ''b''), (''result'', PStr ''success'')]) None]) None),
          [(''input'', PStr ''test_input''), (''name'', PStr ''b''), (''result'', PStr ''success'')],
          [EvExecute ''composite'', EvImpl ''composite'', EvExecute ''a'', EvImpl ''a'',
           EvExecute ''b'', EvImpl ''b''])"
  using composite_threads_context
    [of "[SimpleInstruction ''a'' ''A'' [], SimpleInstruction ''b'' ''B'' []]"
        "\<lambda>n. []" "[(''input'', PStr ''test_input'')]" "''composite''" "''Composite instruction''"]
  by (simp add: finish_def simple_execute_impl_def dict_merge_def)

subsection \<open>ConditionalInstructionTest\<close>

lemma conditional_skip:
  "\<forall>(p, i)\<in>set pre. eval p cx = Inr False \<Longrightarrow>
   run (conditional_execute_impl s n (pre @ rest)) cx =
     (case run (conditional_execute_impl s n rest) cx of
        (out, c, lg) \<Rightarrow> (out, c, replicate (length pre) (EvCond n) @ lg))"
  by (induction pre) (auto split: prod.splits)

text \<open>
  Claim C5. For a \<open>ConditionalInstructionTest\<close>: when the predicates before a pair
  return false and the pair's predicate returns true, the pair's instruction is the
  only one executed (the events are those of the predicates evaluated so far and of that
  branch) and the body returns its data wrapped under the key \<^verbatim>\<open>result\<close>; when every
  predicate returns false, \<open>execute\<close> returns \<open>Failed\<close> with the error
  \<^verbatim>\<open>No matching condition found\<close> and no branch ran.
\<close>

theorem conditional_first_match:
  "(\<forall>pre cond branch post.
      conditions = pre @ (cond, branch) # post \<and> (\<forall>(p, i)\<in>set pre. eval p context = Inr False)
      \<and> eval cond context = Inr True \<and> \<not> foreign branch \<longrightarrow>
      (\<exists>r c lg. run (execute schedules branch) context = (Inr r, c, lg)
        \<and> run (execute schedules (ConditionalInstructionTest n d conditions)) context =
            (Inr (InstructionResult Completed (DDict [(''result'', PData (data r))]) None), c,
             EvExecute n # EvImpl n # replicate (Suc (length pre)) (EvCond n) @ lg)))
   \<and> ((\<forall>(p, i)\<in>set conditions. eval p context = Inr False) \<longrightarrow>
      run (execute schedules (ConditionalInstructionTest n d conditions)) context =
        (Inr (InstructionResult Failed DNone (Some ''No matching condition found'')), context,
         EvExecute n # EvImpl n # replicate (length conditions) (EvCond n)))"
proof (intro conjI allI impI)
  fix pre cond branch post
  assume a: "conditions = pre @ (cond, branch) # post
      \<and> (\<forall>(p, i)\<in>set pre. eval p context = Inr False)
      \<and> eval cond context = Inr True \<and> \<not> foreign branch"
  then obtain r c lg where r: "run (execute schedules branch) context = (Inr r, c, lg)"
    using execute_returns by blast
  with a have "run (execute schedules (ConditionalInstructionTest n d conditions)) context =
            (Inr (InstructionResult Completed (DDict [(''result'', PData (data r))]) None), c,
             EvExecute n # EvImpl n # replicate (Suc (length pre)) (EvCond n) @ lg)"
    by (simp add: conditional_skip finish_def replicate_append_same)
  with r show "\<exists>r c lg. run (execute schedules branch) context = (Inr r, c, lg)
        \<and> run (execute schedules (ConditionalInstructionTest n d conditions)) context =
            (Inr (InstructionResult Completed (DDict [(''result'', PData (data r))]) None), c,
             EvExecute n # EvImpl n # replicate (Suc (length pre)) (EvCond n) @ lg)" by blast
next
  assume "\<forall>(p, i)\<in>set conditions. eval p context = Inr False"
  from conditional_skip [OF this, of schedules n "[]"]
  show "run (execute schedules (ConditionalInstructionTest n d conditions)) context =
        (Inr (InstructionResult Failed DNone (Some ''No matching condition found'')), context,
         EvExecute n # EvImpl n # replicate (length conditions) (EvCond n))"
    by (simp add: finish_def)
qed

theorem conditional_first_match_witness:
  "run (execute (\<lambda>n. []) (ConditionalInstructionTest ''conditional'' ''Conditional instruction''
      [(Return (Inr False), SimpleInstruction ''x'' ''X'' []),
       (Suspend (Return (Inr True)), SimpleInstruction ''y'' ''Y'' [])])) []
    = (Inr (InstructionResult Completed
         (DDict [(''result'',
            PData (DDict [(''name'', PStr ''y''), (''result'', PStr ''success'')]))]) None),
       [],
       [EvExecute ''conditional'', EvImpl ''conditional'', EvCond ''conditional'',
        EvCond ''conditional'', EvExecute ''y'', EvImpl ''y''])
   \<and> run (execute (\<lambda>n. []) (ConditionalInstructionTest ''conditional'' ''Conditional instruction''
      [(Return (Inr False), SimpleInstruction ''x'' ''X'' []),
       (Return (Inr False), SimpleInstruction ''y'' ''Y'' [])])) []
    = (Inr (InstructionResult Failed DNone (Some ''No matching condition found'')), [],
       [EvExecute ''conditional'', EvImpl ''conditional'', EvCond ''conditional'',
        EvCond ''conditional''])"
  using conditional_first_match
    [of "[(Return (Inr False), SimpleInstruction ''x'' ''X'' []),
          (Suspend (Return (Inr True)), SimpleInstruction ''y'' ''Y'' [])]" "[]"
        "\<lambda>n. []" "''conditional''" "''Conditional instruction''"]
    conditional_first_match
    [of "[(Return (Inr False), SimpleInstruction ''x'' ''X'' []),
          (Return (Inr False), SimpleInstruction ''y'' ''Y'' [])]" "[]"
        "\<lambda>n. []" "''conditional''" "''Conditional instruction''"]
  by (simp add: finish_def simple_execute_impl_def)

text \<open>
  Claim C6. For a \<open>ConditionalInstructionTest\<close>: when the predicates before a pair
  return false and the pair's predicate raises, \<open>execute\<close> returns \<open>Failed\<close> with
  the message of the raised error; the events are those of the predicates up to the
  raising one, so no later predicate was tried and no branch was executed; the context
  is untouched.
\<close>

theorem conditional_predicate_raises:
  assumes "conditions = pre @ (cond, branch) # post"
    and "\<forall>(p, i)\<in>set pre. eval p context = Inr False"
    and "eval cond context = Inl e"
  shows "run (execute schedules (ConditionalInstructionTest n d conditions)) context =
    (Inr (InstructionResult Failed DNone (Some (str e))), context,
     EvExecute n # EvImpl n # replicate (Suc (length pre)) (EvCond n))"
  using assms by (simp add: conditional_skip finish_def replicate_append_same)

theorem conditional_predicate_raises_witness:
  "eval (Return (Inl (ValueError ''bad predicate'')) :: (exn + bool) hook) []
     = Inl (ValueError ''bad predicate'')
   \<and> run (execute (\<lambda>n. []) (ConditionalInstructionTest ''conditional'' ''Conditional instruction''
      [(Return (Inr False), SimpleInstruction ''x'' ''X'' []),
       (Return (Inl (ValueError ''bad predicate'')), SimpleInstruction ''y'' ''Y'' []),
       (Return (Inr True), SimpleInstruction ''z'' ''Z'' [])])) []
    = (Inr (InstructionResult Failed DNone (Some ''bad predicate'')), [],
       [EvExecute ''conditional'', EvImpl ''conditional'', EvCond ''conditional'',
        EvCond ''conditional''])"
  using conditional_predicate_raises
    [of "[(Return (Inr False), SimpleInstruction ''x'' ''X'' [])]
         @ (Return (Inl (ValueError ''bad predicate'')), SimpleInstruction ''y'' ''Y'' [])
         # [(Return (Inr True), SimpleInstruction ''z'' ''Z'' [])]"
        "[(Return (Inr False), SimpleInstruction ''x'' ''X'' [])]"
        "Return (Inl (ValueError ''bad predicate''))" "SimpleInstruction ''y'' ''Y'' []"
        "[(Return (Inr True), SimpleInstruction ''z'' ''Z'' [])]" "[]"
        "ValueError ''bad predicate''" "\<lambda>n. []" "''conditional''" "''Conditional instruction''"]
  by (simp add: finish_def)

subsection \<open>SimpleParallelInstruction\<close>

text \<open>
  \<open>gather\<close> awaited alone: the first turns of the tasks, then the resumptions the
  schedule gives. Whatever the schedule, it returns one value for each task, in the
  order of the tasks, and the value at a position is one that task can end with.
\<close>

lemma run_start:
  "run (start ts k) c =
     (case segments ts c of (ts', c1, lg1) \<Rightarrow>
        case run (k ts') c1 of (w, c2, lg2) \<Rightarrow> (w, c2, lg1 @ lg2))"
proof (induction ts arbitrary: k c)
  case Nil
  then show ?case by (simp split: prod.splits)
next
  case (Cons t ts)
  show ?case by (simp add: run_upto_yield Cons.IH split: prod.splits)
qed

lemma run_gather:
  "run (gather schedule ts) c =
     (case segments ts c of (ts', c1, lg1) \<Rightarrow>
        case run (resume schedule ts') c1 of (vs, c2, lg2) \<Rightarrow> (vs, c2, lg1 @ lg2))"
  by (simp add: gather_def run_start split: prod.splits)

lemma resume_ended: "list_all ended ts \<Longrightarrow> resume schedule ts = finish_all ts"
  by (subst resume.simps) simp

lemma resume_Nil: "resume [] ts = finish_all ts"
  by (subst resume.simps) simp

lemma resume_Cons:
  "\<not> list_all ended ts \<Longrightarrow>
   resume (j # later) ts =
     upto_yield (ts ! (j mod length ts))
       (\<lambda>t'. Yield (resume later (ts[j mod length ts := t'])))"
  by (subst resume.simps) simp

lemma outcomes_segment: "outcomes (fst (segment t c)) \<subseteq> outcomes t"
proof (induction t arbitrary: c)
  case (Read f)
  have "outcomes (fst (segment (f c) c)) \<subseteq> outcomes (f c)" by (rule Read.IH) simp
  then show ?case by auto
next
  case (Emit e t)
  from Emit.IH [of c] show ?case by (cases "segment t c") simp
qed simp_all

lemma segments_outcomes:
  "length (fst (segments ts c)) = length ts
   \<and> (\<forall>k<length ts. outcomes (fst (segments ts c) ! k) \<subseteq> outcomes (ts ! k))"
proof (induction ts arbitrary: c)
  case Nil
  then show ?case by simp
next
  case (Cons t ts)
  obtain t' c1 lg1 where t: "segment t c = (t', c1, lg1)" by (cases "segment t c")
  obtain ts' c2 lg2 where ts: "segments ts c1 = (ts', c2, lg2)" by (cases "segments ts c1")
  from outcomes_segment [of t c] t have head: "outcomes t' \<subseteq> outcomes t" by simp
  from Cons.IH [of c1] ts have tail: "length ts' = length ts"
    "\<forall>k<length ts. outcomes (ts' ! k) \<subseteq> outcomes (ts ! k)" by simp_all
  show ?case
  proof (intro conjI allI impI)
    show "length (fst (segments (t # ts) c)) = length (t # ts)" using t ts tail by simp
  next
    fix k assume "k < length (t # ts)"
    then show "outcomes (fst (segments (t # ts) c) ! k) \<subseteq> outcomes ((t # ts) ! k)"
      using t ts head tail by (cases k) simp_all
  qed
qed

lemma run_finish_all:
  "run (finish_all ts) c = (vs, c', lg) \<Longrightarrow>
   length vs = length ts \<and> (\<forall>k<length ts. vs ! k \<in> outcomes (ts ! k))"
proof (induction ts arbitrary: c vs c' lg)
  case Nil
  then show ?case by simp
next
  case (Cons t ts)
  obtain v c1 lg1 where t: "run t c = (v, c1, lg1)" by (cases "run t c")
  obtain vs' c2 lg2 where ts: "run (finish_all ts) c1 = (vs', c2, lg2)"
    by (cases "run (finish_all ts) c1")
  from Cons.prems t ts have vs: "vs = v # vs'" by (simp add: run_bind)
  from run_in_outcomes [of t c] t have head: "v \<in> outcomes t" by simp
  from Cons.IH [OF ts] have tail: "length vs' = length ts"
    "\<forall>k<length ts. vs' ! k \<in> outcomes (ts ! k)" by simp_all
  show ?case
  proof (intro conjI allI impI)
    show "length vs = length (t # ts)" using vs tail by simp
  next
    fix k assume "k < length (t # ts)"
    then show "vs ! k \<in> outcomes ((t # ts) ! k)"
      using vs head tail by (cases k) simp_all
  qed
qed

lemma run_resume:
  "run (resume schedule ts) c = (vs, c', lg) \<Longrightarrow>
   length vs = length ts \<and> (\<forall>k<length ts. vs ! k \<in> outcomes (ts ! k))"
proof (induction schedule arbitrary: ts c vs c' lg)
  case Nil
  then show ?case by (simp add: resume_Nil run_finish_all)
next
  case (Cons j later)
  show ?case
  proof (cases "list_all ended ts")
    case True
    with Cons.prems show ?thesis by (simp add: resume_ended run_finish_all)
  next
    case False
    let ?k = "j mod length ts"
    from False have ne: "ts \<noteq> []" by auto
    then have kl: "?k < length ts" by simp
    obtain t' c1 lg1 where seg: "segment (ts ! ?k) c = (t', c1, lg1)"
      by (cases "segment (ts ! ?k) c")
    obtain vs' c2 lg2 where rest: "run (resume later (ts[?k := t'])) c1 = (vs', c2, lg2)"
      by (cases "run (resume later (ts[?k := t'])) c1")
    from Cons.prems False seg rest have vs: "vs = vs'"
      by (simp add: resume_Cons run_upto_yield)
    from Cons.IH [OF rest] have len: "length vs' = length ts"
      and each: "\<forall>k<length ts. vs' ! k \<in> outcomes (ts[?k := t'] ! k)" by simp_all
    from outcomes_segment [of "ts ! ?k" c] seg have sub: "outcomes t' \<subseteq> outcomes (ts ! ?k)"
      by simp
    have "\<forall>k<length ts. vs' ! k \<in> outcomes (ts ! k)"
    proof (intro allI impI)
      fix k assume k: "k < length ts"
      with each have "vs' ! k \<in> outcomes (ts[?k := t'] ! k)" by simp
      with k sub show "vs' ! k \<in> outcomes (ts ! k)"
        by (cases "k = ?k") auto
    qed
    with vs len show ?thesis by simp
  qed
qed

lemma run_gather_outcomes:
  assumes "run (gather schedule ts) c = (vs, c', lg)"
  shows "length vs = length ts \<and> (\<forall>k<length ts. vs ! k \<in> outcomes (ts ! k))"
proof -
  obtain ts' c1 lg1 where seg: "segments ts c = (ts', c1, lg1)" by (cases "segments ts c")
  obtain vs' c2 lg2 where rest: "run (resume schedule ts') c1 = (vs', c2, lg2)"
    by (cases "run (resume schedule ts') c1")
  from assms seg rest have vs: "vs = vs'" by (simp add: run_gather)
  from segments_outcomes [of ts c] seg have len: "length ts' = length ts"
    and sub: "\<forall>k<length ts. outcomes (ts' ! k) \<subseteq> outcomes (ts ! k)" by simp_all
  from run_resume [OF rest] have "length vs' = length ts'"
    and "\<forall>k<length ts'. vs' ! k \<in> outcomes (ts' ! k)" by simp_all
  with vs len sub show ?thesis by auto
qed

lemma separate_lengths:
  "length (fst (separate results)) + length (snd (separate results)) = length results"
  by (induction results) (auto split: prod.splits sum.splits)

lemma separate_all_returned:
  "\<forall>out\<in>set results. \<exists>r. out = Inr r \<Longrightarrow>
   separate results = (map (\<lambda>out. data (projr out)) results, [])"
  by (induction results) auto

lemma separate_failed:
  "snd (separate results) = map (\<lambda>out. str (projl out)) (filter isl results)"
  by (induction results) (auto split: prod.splits sum.splits)

text \<open>
  The failures the body counts are the launched children whose invocation raised: when
  there is one, the instruction fails and its error lists the message of each, in
  launch order.
\<close>

lemma parallel_enumerates_raised:
  assumes "run (gather (s n) (map (execute s) (take 2 instructions))) cx = (results, c, lg)"
    and "\<exists>out\<in>set results. isl out"
  shows "run (execute s (SimpleParallelInstruction n d instructions)) cx =
    (Inr (InstructionResult Failed DNone
       (Some (''One or more instructions failed: ''
              @ join '', '' (map (\<lambda>out. str (projl out)) (filter isl results))))),
     c, EvExecute n # EvImpl n # lg)"
proof -
  obtain ss fs where sep: "separate results = (ss, fs)" by (cases "separate results")
  with separate_failed [of results]
  have fs: "fs = map (\<lambda>out. str (projl out)) (filter isl results)" by simp
  from assms(2) have "filter isl results \<noteq> []" by (auto simp: filter_empty_conv)
  with fs have "fs \<noteq> []" by simp
  with assms(1) sep fs show ?thesis
    by (simp add: parallel_collect_def finish_def)
qed

text \<open>A completed result of a \<open>SimpleInstruction\<close> carries the instruction's own name.\<close>

lemma outcomes_execute_simple:
  assumes "Inr r \<in> outcomes (execute s (SimpleInstruction n d rules))"
    and "status r = Completed"
  shows "r = InstructionResult Completed
               (DDict [(''name'', PStr n), (''result'', PStr ''success'')]) None"
  using assms
  by (auto simp: execute_engine outcomes_bind simple_execute_impl_def finish_def reject_def
        split: if_splits)

text \<open>
  Claim C7. For a \<open>SimpleParallelInstruction\<close>, whatever order the event loop
  resumes the children in: when the launched children (the gathered ones) all return a
  \<open>Completed\<close> result, \<open>execute\<close> returns \<open>Completed\<close> with the data
  \<^verbatim>\<open>{"results": [...]}\<close>, the list holding the data of each launched child's result
  in launch order; it has as many entries as children were launched, and the entry at
  position \<open>k\<close> is a result of child \<open>k\<close>, whichever child ended first: where
  child \<open>k\<close> is a \<open>SimpleInstruction\<close>, the entry is the result that carries that
  child's name.
\<close>

theorem parallel_results_in_launch_order:
  assumes "run (gather (schedules n) (map (execute schedules) (take 2 instructions))) context
             = (results, c, lg)"
    and "\<forall>out\<in>set results. \<exists>r. out = Inr r \<and> status r = Completed"
  shows "run (execute schedules (SimpleParallelInstruction n d instructions)) context =
           (Inr (InstructionResult Completed
              (DDict [(''results'', PList (map (\<lambda>out. PData (data (projr out))) results))]) None),
            c, EvExecute n # EvImpl n # lg)
       \<and> length results = length (take 2 instructions)
       \<and> (\<forall>k<length (take 2 instructions).
            results ! k \<in> outcomes (execute schedules (instructions ! k)))
       \<and> (\<forall>k<length (take 2 instructions). \<forall>n' d' rules.
            instructions ! k = SimpleInstruction n' d' rules \<longrightarrow>
            results ! k = Inr (InstructionResult Completed
                (DDict [(''name'', PStr n'), (''result'', PStr ''success'')]) None))"
proof (intro conjI allI impI)
  from assms(2) have "\<forall>out\<in>set results. \<exists>r. out = Inr r" by blast
  from separate_all_returned [OF this] assms(1)
  show "run (execute schedules (SimpleParallelInstruction n d instructions)) context =
           (Inr (InstructionResult Completed
              (DDict [(''results'', PList (map (\<lambda>out. PData (data (projr out))) results))]) None),
            c, EvExecute n # EvImpl n # lg)"
    by (simp add: parallel_collect_def finish_def comp_def)
next
  from run_gather_outcomes [OF assms(1)]
  show "length results = length (take 2 instructions)" by simp
next
  fix k assume k: "k < length (take 2 instructions)"
  with run_gather_outcomes [OF assms(1)]
  have "results ! k \<in> outcomes (map (execute schedules) (take 2 instructions) ! k)" by simp
  with k show "results ! k \<in> outcomes (execute schedules (instructions ! k))" by simp
next
  fix k n' d' rules
  assume k: "k < length (take 2 instructions)"
    and simple: "instructions ! k = SimpleInstruction n' d' rules"
  from k run_gather_outcomes [OF assms(1)]
  have "results ! k \<in> outcomes (map (execute schedules) (take 2 instructions) ! k)"
    and kl: "k < length results" by simp_all
  with k simple
  have mem: "results ! k \<in> outcomes (execute schedules (SimpleInstruction n' d' rules))"
    by simp
  from kl assms(2) obtain r where r: "results ! k = Inr r" "status r = Completed"
    by (metis nth_mem)
  with mem outcomes_execute_simple [of r schedules n' d' rules]
  show "results ! k = Inr (InstructionResult Completed
                (DDict [(''name'', PStr n'), (''result'', PStr ''success'')]) None)"
    by simp
qed

theorem parallel_results_in_launch_order_witness:
  "run (gather [0] (map (execute (\<lambda>n. [0]))
       (take 2 [SimpleInstruction ''part1'' ''Part 1'' [Suspend (Return (Inr True))],
                SimpleInstruction ''part2'' ''Part 2'' []]))) []
     = ([Inr (InstructionResult Completed
               (DDict [(''name'', PStr ''part1''), (''result'', PStr ''success'')]) None),
         Inr (InstructionResult Completed
               (DDict [(''name'', PStr ''part2''), (''result'', PStr ''success'')]) None)], [],
        [EvExecute ''part1'', EvRule ''part1'', EvExecute ''part2'', EvImpl ''part2'',
         EvImpl ''part1''])
   \<and> run (execute (\<lambda>n. [0]) (SimpleParallelInstruction ''parallel'' ''Parallel instruction''
        [SimpleInstruction ''part1'' ''Part 1'' [Suspend (Return (Inr True))],
         SimpleInstruction ''part2'' ''Part 2'' []])) []
     = (Inr (InstructionResult Completed
          (DDict [(''results'',
             PList [PData (DDict [(''name'', PStr ''part1''), (''result'', PStr ''success'')]),
                    PData (DDict [(''name'', PStr ''part2''), (''result'', PStr ''success'')])])])
          None), [],
        [EvExecute ''parallel'', EvImpl ''parallel'', EvExecute ''part1'', EvRule ''part1'',
         EvExecute ''part2'', EvImpl ''part2'', EvImpl ''part1''])"
  using parallel_results_in_launch_order
    [of "\<lambda>n. [0]" "''parallel''"
        "[SimpleInstruction ''part1'' ''Part 1'' [Suspend (Return (Inr True))],
          SimpleInstruction ''part2'' ''Part 2'' []]"
        "[]"
        "[Inr (InstructionResult Completed
               (DDict [(''name'', PStr ''part1''), (''result'', PStr ''success'')]) None),
          Inr (InstructionResult Completed
               (DDict [(''name'', PStr ''part2''), (''result'', PStr ''success'')]) None)]"
        "[]"
        "[EvExecute ''part1'', EvRule ''part1'', EvExecute ''part2'', EvImpl ''part2'',
          EvImpl ''part1'']"
        "''Parallel instruction''"]
  by (simp add: run_bind run_gather resume_ended resume_Nil resume_Cons execute.simps
        validate.simps finish_def simple_execute_impl_def parallel_collect_def)

text \<open>
  Claim C8, at a failing input. A launched child that returns a \<open>Failed\<close> result is
  an \<^verbatim>\<open>InstructionResult\<close> like any other: its (absent) data goes to
  \<^verbatim>\<open>successful_results\<close> and the parallel instruction completes. Both children ran.
  Nothing suspends here, so the schedule plays no part.
\<close>

theorem parallel_failed_child_completes:
  "run (execute schedules (SimpleParallelInstruction ''parallel'' ''Parallel instruction''
      [SimpleInstruction ''a'' ''A'' [], SimpleInstruction ''b'' ''B'' [Return (Inr False)]])) []
    = (Inr (InstructionResult Completed
         (DDict [(''results'',
            PList [PData (DDict [(''name'', PStr ''a''), (''result'', PStr ''success'')]),
                   PData DNone])])
         None), [],
       [EvExecute ''parallel'', EvImpl ''parallel'', EvExecute ''a'', EvImpl ''a'',
        EvExecute ''b'', EvRule ''b''])"
  by (simp add: run_bind run_gather resume_ended execute.simps validate.simps finish_def
        reject_def simple_execute_impl_def parallel_collect_def)

text \<open>
  Claim C10. For a \<open>SimpleParallelInstruction\<close> with at least two children: the tasks
  the body gathers are the \<open>execute\<close> of the children at indices 0 and 1 and no
  other; the instruction is the same coroutine as the one with those two children
  alone, so no later child is invoked; and a completed result holds a \<^verbatim>\<open>results\<close>
  list of length 2.
\<close>

theorem parallel_launches_first_two:
  assumes "2 \<le> length instructions"
  shows "execute_impl schedules (SimpleParallelInstruction n d instructions) =
           bind (gather (schedules n)
                   [execute schedules (instructions ! 0), execute schedules (instructions ! 1)])
             (\<lambda>results. Done (parallel_collect results))
       \<and> execute schedules (SimpleParallelInstruction n d instructions) =
           execute schedules (SimpleParallelInstruction n d [instructions ! 0, instructions ! 1])
       \<and> run (execute schedules (SimpleParallelInstruction n d instructions)) context =
           run (execute schedules
                  (SimpleParallelInstruction n d [instructions ! 0, instructions ! 1])) context
       \<and> (\<forall>r c lg.
             run (execute schedules (SimpleParallelInstruction n d instructions)) context
               = (Inr r, c, lg) \<and> status r = Completed \<longrightarrow>
             (\<exists>ds. data r = DDict [(''results'', PList ds)] \<and> length ds = 2))"
proof -
  from assms obtain a b rest where cs: "instructions = a # b # rest"
    by (cases instructions; cases "tl instructions") auto
  have impl: "execute_impl schedules (SimpleParallelInstruction n d instructions) =
           bind (gather (schedules n)
                   [execute schedules (instructions ! 0), execute schedules (instructions ! 1)])
             (\<lambda>results. Done (parallel_collect results))"
    using cs by simp
  have same: "execute schedules (SimpleParallelInstruction n d instructions) =
           execute schedules (SimpleParallelInstruction n d [instructions ! 0, instructions ! 1])"
    using cs by (simp add: execute_engine)
  obtain results c1 lg1 where g: "run (gather (schedules n) (map (execute schedules)
       (take 2 instructions))) context = (results, c1, lg1)"
    by (cases "run (gather (schedules n) (map (execute schedules) (take 2 instructions))) context")
  from run_gather_outcomes [OF g] cs have two: "length results = 2" by simp
  obtain ss fs where sep: "separate results = (ss, fs)" by (cases "separate results")
  from separate_lengths [of results] sep two have len: "length ss + length fs = 2" by simp
  have compl: "\<forall>r c lg.
             run (execute schedules (SimpleParallelInstruction n d instructions)) context
               = (Inr r, c, lg) \<and> status r = Completed \<longrightarrow>
             (\<exists>ds. data r = DDict [(''results'', PList ds)] \<and> length ds = 2)"
  proof (cases "fs = []")
    case True
    with len have "length ss = 2" by simp
    with True g sep show ?thesis by (simp add: parallel_collect_def finish_def)
  next
    case False
    with g sep show ?thesis by (simp add: parallel_collect_def finish_def)
  qed
  from impl same compl show ?thesis by simp
qed

theorem parallel_launches_first_two_witness:
  "2 \<le> length [SimpleInstruction ''a'' ''A'' [], SimpleInstruction ''b'' ''B'' [],
                 SimpleInstruction ''c'' ''C'' [], Raising ''d'' (Exception ''boom'')]
   \<and> run (execute (\<lambda>n. []) (SimpleParallelInstruction ''parallel'' ''Parallel instruction''
        [SimpleInstruction ''a'' ''A'' [], SimpleInstruction ''b'' ''B'' [],
         SimpleInstruction ''c'' ''C'' [], Raising ''d'' (Exception ''boom'')])) []
     = (Inr (InstructionResult Completed
          (DDict [(''results'',
             PList [PData (DDict [(''name'', PStr ''a''), (''result'', PStr ''success'')]),
                    PData (DDict [(''name'', PStr ''b''), (''result'', PStr ''success'')])])])
          None), [],
        [EvExecute ''parallel'', EvImpl ''parallel'', EvExecute ''a'', EvImpl ''a'',
         EvExecute ''b'', EvImpl ''b''])"
  using parallel_launches_first_two
    [of "[SimpleInstruction ''a'' ''A'' [], SimpleInstruction ''b'' ''B'' [],
          SimpleInstruction ''c'' ''C'' [], Raising ''d'' (Exception ''boom'')]"
        "\<lambda>n. []" "''parallel''" "''Parallel instruction''" "[]"]
  by (simp add: run_bind run_gather resume_ended execute.simps validate.simps finish_def
        simple_execute_impl_def parallel_collect_def)

subsection \<open>IterativeInstruction\<close>




end
